theory Spec2Isabelle
  imports Main "HOL-Library.Word"
begin

unbundle bit_operations_syntax

section \<open>Data model\<close>

text \<open>
  Modelled from the spec: the enumerations \<open>Type\<close>, \<open>Flash\<close> and \<open>Status\<close> and the struct
  \<open>LightState\<close> are declared by the interface header \<open>android/hardware/light/2.0/ILight.h\<close>,
  which Light.h includes and which is not part of the repository. \<open>LightState\<close> has the
  four fields of the specification, the only ones the code reads. \<open>Type\<close> has the four
  values the service configures (BACKLIGHT, BATTERY, NOTIFICATIONS, ATTENTION) and the
  other values of the interface (KEYBOARD, BUTTONS, BLUETOOTH, WIFI), the types
  ``not among'' the configured ones: no backend has them. \<open>Flash\<close> has NONE and TIMED, and
  the interface's third value HARDWARE, which takes the same branch as NONE in the
  handlers (they compare with TIMED only).
\<close>

datatype Type = BACKLIGHT | KEYBOARD | BUTTONS | BATTERY | NOTIFICATIONS | ATTENTION
  | BLUETOOTH | WIFI

datatype Flash = NONE | TIMED | HARDWARE

datatype Status = SUCCESS | LIGHT_NOT_SUPPORTED

text \<open>
  Every 32-bit quantity of the source (\<open>uint32_t\<close> and \<open>int\<close>) is a \<open>32 word\<close>, the bit
  pattern; the conversions between \<open>int\<close> and \<open>uint32_t\<close> keep the bit pattern and are the
  identity here. Arithmetic on \<open>32 word\<close> wraps modulo \<open>2 ^ 32\<close>, \<open>div\<close> is unsigned
  division, as for \<open>uint32_t\<close>.
\<close>

type_synonym u32 = "32 word"

record LightState =
  color :: u32
  flashMode :: Flash
  flashOnMs :: u32
  flashOffMs :: u32

text \<open>The two render handlers, the targets of the function pointer \<open>LightStateHandler\<close>.\<close>

datatype LightStateHandler = handleNotificationPtr | handleBacklightPtr

record LightBackend =
  type :: Type
  state :: LightState
  handler :: LightStateHandler

text \<open>The constructor of \<open>LightBackend\<close>: the cached state starts as opaque black.\<close>

definition newLightBackend :: "Type \<Rightarrow> LightStateHandler \<Rightarrow> LightBackend" where
  "newLightBackend t h =
     \<lparr>type = t,
      state = \<lparr>color = 0xff000000, flashMode = NONE, flashOnMs = 0, flashOffMs = 0\<rparr>,
      handler = h\<rparr>"

text \<open>
  The member \<open>Light::backends\<close> as constructed (Light.h), in priority order. Each entry is
  built by the constructor above from its type and its handler.
\<close>

definition backends0 :: "LightBackend list" where
  "backends0 =
     [newLightBackend ATTENTION handleNotificationPtr,
      newLightBackend NOTIFICATIONS handleNotificationPtr,
      newLightBackend BATTERY handleNotificationPtr,
      newLightBackend BACKLIGHT handleBacklightPtr]"

section \<open>Device files\<close>

definition LEDS :: string where "LEDS = ''/sys/class/leds/''"
definition LCD_LED :: string where "LCD_LED = LEDS @ ''lcd-backlight/''"
definition WHITE_LED :: string where "WHITE_LED = LEDS @ ''red/''"
definition BREATH :: string where "BREATH = ''breath''"
definition BRIGHTNESS :: string where "BRIGHTNESS = ''brightness''"
definition DELAY_OFF :: string where "DELAY_OFF = ''delay_off''"
definition DELAY_ON :: string where "DELAY_ON = ''delay_on''"
definition MAX_BRIGHTNESS :: string where "MAX_BRIGHTNESS = ''max_brightness''"

text \<open>
  The device files during a call, as far as the code depends on them: \<open>readable\<close> is what
  \<open>readFile\<close> finds at a path (\<open>None\<close>: the file cannot be opened for reading, \<open>Some v\<close>:
  the integer read from it), \<open>writable\<close> whether the file opens for writing.
\<close>

record sysfs =
  readable :: "string \<Rightarrow> u32 option"
  writable :: "string \<Rightarrow> bool"

text \<open>
  The observable effects of a call, in order. \<open>Invoke h s\<close>: the render handler \<open>h\<close> is
  entered with the state \<open>s\<close>. \<open>Write path v ok\<close>: \<open>writeFile\<close> is called with the path
  and the value; \<open>ok\<close> is its result, true when the file opened and took the decimal text
  of the value, false when the open failed and the call only logged a warning. The writes
  a call issues are all its \<open>Write\<close> events.
\<close>

datatype event = Invoke LightStateHandler LightState | Write string u32 bool

definition writeFile :: "sysfs \<Rightarrow> string \<Rightarrow> u32 \<Rightarrow> bool \<times> event list" where
  "writeFile fs path v =
     (if \<not> writable fs path then (False, [Write path v False])
      else (True, [Write path v True]))"

definition readFile :: "sysfs \<Rightarrow> string \<Rightarrow> u32 option" where
  "readFile fs path = readable fs path"

definition getMaxBrightness :: "sysfs \<Rightarrow> string \<Rightarrow> u32 option" where
  "getMaxBrightness fs path = readFile fs path"

section \<open>Brightness conversion\<close>

definition getBrightness :: "LightState \<Rightarrow> u32" where
  "getBrightness s =
     (let alpha = drop_bit 24 (color s) AND 0xFF;
          red = drop_bit 16 (color s) AND 0xFF;
          green = drop_bit 8 (color s) AND 0xFF;
          blue = color s AND 0xFF;
          red' = (if alpha \<noteq> 0xFF then red * alpha div 0xFF else red);
          green' = (if alpha \<noteq> 0xFF then green * alpha div 0xFF else green);
          blue' = (if alpha \<noteq> 0xFF then blue * alpha div 0xFF else blue)
      in drop_bit 8 (77 * red' + 150 * green' + 29 * blue'))"

definition scaleBrightness :: "u32 \<Rightarrow> u32 \<Rightarrow> u32" where
  "scaleBrightness brightness maxBrightness = (brightness * maxBrightness) div 255"

definition getScaledBrightness :: "LightState \<Rightarrow> u32 \<Rightarrow> u32" where
  "getScaledBrightness s maxBrightness = scaleBrightness (getBrightness s) maxBrightness"

definition isLit :: "LightState \<Rightarrow> bool" where
  "isLit s = (color s AND 0x00ffffff \<noteq> 0)"

section \<open>Render handlers\<close>

text \<open>
  Both handlers return without a write when \<open>max_brightness\<close> cannot be read, and both
  drop the result of \<open>writeFile\<close>.
\<close>

definition handleBacklight :: "sysfs \<Rightarrow> LightState \<Rightarrow> event list" where
  "handleBacklight fs s =
     (case getMaxBrightness fs (LCD_LED @ MAX_BRIGHTNESS) of
        None \<Rightarrow> []
      | Some maxBrightness \<Rightarrow>
          snd (writeFile fs (LCD_LED @ BRIGHTNESS) (getScaledBrightness s maxBrightness)))"

definition handleNotification :: "sysfs \<Rightarrow> LightState \<Rightarrow> event list" where
  "handleNotification fs s =
     (case getMaxBrightness fs (WHITE_LED @ MAX_BRIGHTNESS) of
        None \<Rightarrow> []
      | Some maxBrightness \<Rightarrow>
          snd (writeFile fs (WHITE_LED @ BREATH) 0) @
          (if flashMode s = TIMED
           then snd (writeFile fs (WHITE_LED @ DELAY_OFF) (flashOffMs s)) @
                snd (writeFile fs (WHITE_LED @ DELAY_ON) (flashOnMs s)) @
                snd (writeFile fs (WHITE_LED @ BREATH) 1)
           else snd (writeFile fs (WHITE_LED @ BRIGHTNESS)
                  (getScaledBrightness s maxBrightness))))"

text \<open>A call through the function pointer: the handler is entered, then its body runs.\<close>

fun invoke :: "sysfs \<Rightarrow> LightStateHandler \<Rightarrow> LightState \<Rightarrow> event list" where
  "invoke fs handleNotificationPtr s = Invoke handleNotificationPtr s # handleNotification fs s"
| "invoke fs handleBacklightPtr s = Invoke handleBacklightPtr s # handleBacklight fs s"

section \<open>The controller\<close>

text \<open>The outcome of a call on the service: what it returns, the backends and the effects.\<close>

record 'r outcome =
  returned :: 'r
  backends :: "LightBackend list"
  effects :: "event list"

text \<open>
  First loop of \<open>Light::setLight\<close> (Light.cpp): every backend of the type takes the new
  state, and \<open>handler\<close> ends as the handler of the last one (\<open>None\<close> is \<open>nullptr\<close>).
\<close>

fun updateCached ::
  "Type \<Rightarrow> LightState \<Rightarrow> LightBackend list \<Rightarrow> LightStateHandler option \<Rightarrow>
   LightBackend list \<times> LightStateHandler option" where
  "updateCached t s [] h = ([], h)"
| "updateCached t s (b # bs) h =
     (if type b = t
      then (case updateCached t s bs (Some (handler b)) of
              (bs', h') \<Rightarrow> (b\<lparr>state := s\<rparr> # bs', h'))
      else (case updateCached t s bs h of (bs', h') \<Rightarrow> (b # bs', h')))"

text \<open>
  Second loop: the first backend with this handler that is lit is rendered, and the loop
  breaks. The result is \<open>handled\<close> and the effects.
\<close>

fun lightUp :: "sysfs \<Rightarrow> LightStateHandler \<Rightarrow> LightBackend list \<Rightarrow> bool \<times> event list" where
  "lightUp fs h [] = (False, [])"
| "lightUp fs h (b # bs) =
     (if h = handler b \<and> isLit (state b) then (True, invoke fs h (state b))
      else lightUp fs h bs)"

definition setLight ::
  "sysfs \<Rightarrow> LightBackend list \<Rightarrow> Type \<Rightarrow> LightState \<Rightarrow> Status outcome" where
  "setLight fs bs t s =
     (case updateCached t s bs None of
        (bs', None) \<Rightarrow>
          \<lparr>returned = LIGHT_NOT_SUPPORTED, backends = bs', effects = []\<rparr>
      | (bs', Some h) \<Rightarrow>
          (case lightUp fs h bs' of
             (True, es) \<Rightarrow> \<lparr>returned = SUCCESS, backends = bs', effects = es\<rparr>
           | (False, es) \<Rightarrow>
               \<lparr>returned = SUCCESS, backends = bs', effects = es @ invoke fs h s\<rparr>))"

text \<open>
  The \<open>setLight\<close> written inline in the class (Light.h): the first backend of the type
  takes the state and its handler renders that state at once.
\<close>

fun setLight_inline ::
  "sysfs \<Rightarrow> LightBackend list \<Rightarrow> Type \<Rightarrow> LightState \<Rightarrow> Status outcome" where
  "setLight_inline fs [] t s =
     \<lparr>returned = LIGHT_NOT_SUPPORTED, backends = [], effects = []\<rparr>"
| "setLight_inline fs (b # bs) t s =
     (if type b = t
      then \<lparr>returned = SUCCESS, backends = b\<lparr>state := s\<rparr> # bs,
            effects = invoke fs (handler b) s\<rparr>
      else (let r = setLight_inline fs bs t s in r\<lparr>backends := b # backends r\<rparr>))"

text \<open>\<open>Light::getSupportedTypes\<close>: the loop pushes each backend's type; the callback gets the vector.\<close>

fun pushTypes :: "LightBackend list \<Rightarrow> Type list \<Rightarrow> Type list" where
  "pushTypes [] types = types"
| "pushTypes (b # bs) types = pushTypes bs (types @ [type b])"

definition getSupportedTypes :: "LightBackend list \<Rightarrow> (Type list) outcome" where
  "getSupportedTypes bs = \<lparr>returned = pushTypes bs [], backends = bs, effects = []\<rparr>"

text \<open>
  A history of \<open>setLight\<close> calls, oldest first, each with the device files as they are
  during that call. The lock serialises the calls, so each runs on the backends the
  previous one left.
\<close>

type_synonym call = "sysfs \<times> Type \<times> LightState"

fun setLights :: "call list \<Rightarrow> LightBackend list \<Rightarrow> LightBackend list" where
  "setLights [] bs = bs"
| "setLights ((fs, t, s) # cs) bs = setLights cs (backends (setLight fs bs t s))"

section \<open>Observations on the effects\<close>

text \<open>
  The handler calls of a log, in order, and the writes issued, in order, each with its
  path and value.
\<close>

fun invocations :: "event list \<Rightarrow> (LightStateHandler \<times> LightState) list" where
  "invocations [] = []"
| "invocations (Invoke h s # es) = (h, s) # invocations es"
| "invocations (Write p v ok # es) = invocations es"

fun writes :: "event list \<Rightarrow> (string \<times> u32) list" where
  "writes [] = []"
| "writes (Invoke h s # es) = writes es"
| "writes (Write p v ok # es) = (p, v) # writes es"

text \<open>The values written to one attribute file, in order.\<close>

definition written :: "string \<Rightarrow> event list \<Rightarrow> u32 list" where
  "written path es = map snd (filter (\<lambda>w. fst w = path) (writes es))"

text \<open>The LED directory a handler renders to.\<close>

fun ledOf :: "LightStateHandler \<Rightarrow> string" where
  "ledOf handleNotificationPtr = WHITE_LED"
| "ledOf handleBacklightPtr = LCD_LED"

text \<open>
  The writes turn an LED off: its brightness was written, and only with 0, or its blink
  switch \<open>breath\<close> was written, and only with 0 (disabled and not enabled again).
\<close>

definition turnsOff :: "string \<Rightarrow> event list \<Rightarrow> bool" where
  "turnsOff led es =
     (set (written (led @ BRIGHTNESS) es) = {0} \<or> set (written (led @ BREATH) es) = {0})"

section \<open>The specification's reference definitions\<close>

text \<open>
  The cache update as the specification words it: the backend of the type takes the
  state, every other backend stays.
\<close>

definition cacheState :: "Type \<Rightarrow> LightState \<Rightarrow> LightBackend list \<Rightarrow> LightBackend list" where
  "cacheState t s bs = map (\<lambda>b. if type b = t then b\<lparr>state := s\<rparr> else b) bs"

text \<open>
  The arbitration as the specification words it: among the backends that share the
  handler, in construction order, the first whose state is lit.
\<close>

definition firstLit :: "LightStateHandler \<Rightarrow> LightBackend list \<Rightarrow> LightBackend option" where
  "firstLit h bs = find (\<lambda>b. handler b = h \<and> isLit (state b)) bs"

text \<open>
  The state of the most recent call for a type in a history (oldest call first), or the
  given default when the history has no call for the type.
\<close>

fun latest :: "Type \<Rightarrow> call list \<Rightarrow> LightState \<Rightarrow> LightState" where
  "latest t [] d = d"
| "latest t ((fs, t', s) # cs) d = latest t cs (if t' = t then s else d)"

text \<open>
  The brightness conversion as the specification words it, on unbounded natural numbers:
  the channels of the ARGB colour, the premultiplication by alpha, the weighted sum
  shifted right by 8, and the scaling to the range of the hardware.
\<close>

definition luma_ref :: "nat \<Rightarrow> nat" where
  "luma_ref c =
     (let alpha = (c div 2 ^ 24) mod 256;
          red = (c div 2 ^ 16) mod 256;
          green = (c div 2 ^ 8) mod 256;
          blue = c mod 256;
          red' = (if alpha \<noteq> 255 then red * alpha div 255 else red);
          green' = (if alpha \<noteq> 255 then green * alpha div 255 else green);
          blue' = (if alpha \<noteq> 255 then blue * alpha div 255 else blue)
      in (77 * red' + 150 * green' + 29 * blue') div 2 ^ 8)"

definition scale_ref :: "nat \<Rightarrow> nat \<Rightarrow> nat" where
  "scale_ref luma maxBrightness = (luma * maxBrightness) div 255"


section \<open>Example states\<close>

text \<open>A steady state of a colour, and a blinking one, for the concrete instances below.\<close>

definition steady :: "u32 \<Rightarrow> LightState" where
  "steady c = \<lparr>color = c, flashMode = NONE, flashOnMs = 0, flashOffMs = 0\<rparr>"

definition blinking :: "u32 \<Rightarrow> u32 \<Rightarrow> u32 \<Rightarrow> LightState" where
  "blinking c onMs offMs = \<lparr>color = c, flashMode = TIMED, flashOnMs = onMs, flashOffMs = offMs\<rparr>"

text \<open>
  Device files that all open, every \<open>max_brightness\<close> reading the given value, and device
  files of which none opens.
\<close>

definition leds :: "u32 \<Rightarrow> sysfs" where
  "leds maxBrightness = \<lparr>readable = (\<lambda>path. Some maxBrightness), writable = (\<lambda>path. True)\<rparr>"

definition noLeds :: sysfs where
  "noLeds = \<lparr>readable = (\<lambda>path. None), writable = (\<lambda>path. False)\<rparr>"

section \<open>Brightness conversion: the code against the reference\<close>

lemma unat_channel: "unat (drop_bit n (c :: u32) AND 0xFF) = (unat c div 2 ^ n) mod 256"
proof -
  have m: "(0xFF :: u32) = mask 8" by (simp add: mask_eq_exp_minus_1)
  have "unat (drop_bit n c AND mask 8) = unat (take_bit 8 (drop_bit n c))"
    by (simp only: take_bit_eq_mask)
  also have "\<dots> = take_bit 8 (unat (drop_bit n c))"
    by (simp only: unsigned_take_bit_eq)
  also have "\<dots> = take_bit 8 (drop_bit n (unat c))"
    by (simp only: unat_drop_bit_eq)
  also have "\<dots> = (unat c div 2 ^ n) mod 256"
    by (simp add: take_bit_eq_mod drop_bit_eq_div)
  finally show ?thesis by (simp only: m)
qed

lemma unat_channel0: "unat ((c :: u32) AND 0xFF) = unat c mod 256"
  using unat_channel [of 0 c] by simp

lemma unat_premul:
  fixes x a :: u32
  assumes "unat x < 256" "unat a < 256"
  shows "unat (x * a div 0xFF) = unat x * unat a div 255"
proof -
  have "unat x * unat a \<le> 255 * 255" using assms by (intro mult_le_mono) auto
  then have "unat x * unat a < 2 ^ 32" by simp
  then have "unat (x * a) = unat x * unat a" by (simp add: unat_mult_lem [THEN iffD1])
  then show ?thesis by (simp add: unat_div)
qed

lemma unat_weighted:
  fixes r g b :: u32
  assumes "unat r < 256" "unat g < 256" "unat b < 256"
  shows "unat (drop_bit 8 (77 * r + 150 * g + 29 * b)) =
         (77 * unat r + 150 * unat g + 29 * unat b) div 2 ^ 8"
proof -
  have r: "unat (77 * r) = 77 * unat r"
    using assms(1) by (simp add: unat_word_ariths)
  have g: "unat (150 * g) = 150 * unat g"
    using assms(2) by (simp add: unat_word_ariths)
  have b: "unat (29 * b) = 29 * unat b"
    using assms(3) by (simp add: unat_word_ariths)
  have "unat (77 * r + 150 * g + 29 * b) = 77 * unat r + 150 * unat g + 29 * unat b"
    using assms by (simp add: unat_word_ariths r g b)
  then show ?thesis
    by (simp add: unat_drop_bit_eq drop_bit_eq_div unat_div)
qed

lemma premul_bound: "x < 256 \<Longrightarrow> a < 256 \<Longrightarrow> x * a div 255 < (256::nat)"
proof -
  assume "x < 256" "a < 256"
  then have "x * a \<le> 255 * 255" by (intro mult_le_mono) auto
  then have "x * a div 255 \<le> 255 * 255 div 255" by (rule div_le_mono)
  then show ?thesis by simp
qed

lemma luma_ref_unfold:
  "luma_ref c =
     (if (c div 2 ^ 24) mod 256 \<noteq> 255
      then (77 * ((c div 2 ^ 16) mod 256 * ((c div 2 ^ 24) mod 256) div 255)
            + 150 * ((c div 2 ^ 8) mod 256 * ((c div 2 ^ 24) mod 256) div 255)
            + 29 * (c mod 256 * ((c div 2 ^ 24) mod 256) div 255)) div 2 ^ 8
      else (77 * ((c div 2 ^ 16) mod 256) + 150 * ((c div 2 ^ 8) mod 256) + 29 * (c mod 256)) div 2 ^ 8)"
  by (simp add: luma_ref_def Let_def)

lemma luma_eq: "unat (getBrightness s) = luma_ref (unat (color s))"
proof -
  define wa where "wa = drop_bit 24 (color s) AND 0xFF"
  define wr where "wr = drop_bit 16 (color s) AND 0xFF"
  define wg where "wg = drop_bit 8 (color s) AND 0xFF"
  define wb where "wb = color s AND 0xFF"
  define c where "c = unat (color s)"
  have ua: "unat wa = (c div 2 ^ 24) mod 256" unfolding wa_def c_def by (rule unat_channel)
  have ur: "unat wr = (c div 2 ^ 16) mod 256" unfolding wr_def c_def by (rule unat_channel)
  have ug: "unat wg = (c div 2 ^ 8) mod 256" unfolding wg_def c_def by (rule unat_channel)
  have ub: "unat wb = c mod 256" unfolding wb_def c_def by (rule unat_channel0)
  have ba: "unat wa < 256" and br: "unat wr < 256" and bg: "unat wg < 256" and bb: "unat wb < 256"
    by (simp_all add: ua ur ug ub)
  have gb: "getBrightness s =
      (if wa \<noteq> 0xFF
       then drop_bit 8 (77 * (wr * wa div 0xFF) + 150 * (wg * wa div 0xFF) + 29 * (wb * wa div 0xFF))
       else drop_bit 8 (77 * wr + 150 * wg + 29 * wb))"
    by (simp add: getBrightness_def Let_def wa_def wr_def wg_def wb_def)
  have a: "(wa \<noteq> 0xFF) = ((c div 2 ^ 24) mod 256 \<noteq> 255)"
    by (simp add: word_unat_eq_iff ua)
  show ?thesis
  proof (cases "wa = 0xFF")
    case True
    then have "unat (getBrightness s) = unat (drop_bit 8 (77 * wr + 150 * wg + 29 * wb))"
      by (simp add: gb)
    also have "\<dots> = (77 * unat wr + 150 * unat wg + 29 * unat wb) div 2 ^ 8"
      by (rule unat_weighted [OF br bg bb])
    also have "\<dots> = luma_ref c"
      using True a by (simp only: luma_ref_unfold ur ug ub simp_thms if_False)
    finally show ?thesis by (simp only: c_def)
  next
    case False
    have pr: "unat (wr * wa div 0xFF) = unat wr * unat wa div 255" by (rule unat_premul [OF br ba])
    have pg: "unat (wg * wa div 0xFF) = unat wg * unat wa div 255" by (rule unat_premul [OF bg ba])
    have pb: "unat (wb * wa div 0xFF) = unat wb * unat wa div 255" by (rule unat_premul [OF bb ba])
    have qr: "unat (wr * wa div 0xFF) < 256" unfolding pr by (rule premul_bound [OF br ba])
    have qg: "unat (wg * wa div 0xFF) < 256" unfolding pg by (rule premul_bound [OF bg ba])
    have qb: "unat (wb * wa div 0xFF) < 256" unfolding pb by (rule premul_bound [OF bb ba])
    from False have "unat (getBrightness s) =
        unat (drop_bit 8 (77 * (wr * wa div 0xFF) + 150 * (wg * wa div 0xFF) + 29 * (wb * wa div 0xFF)))"
      by (simp add: gb)
    also have "\<dots> = (77 * (unat wr * unat wa div 255) + 150 * (unat wg * unat wa div 255)
        + 29 * (unat wb * unat wa div 255)) div 2 ^ 8"
      by (simp only: unat_weighted [OF qr qg qb] pr pg pb)
    also have "\<dots> = luma_ref c"
      using False a by (simp only: luma_ref_unfold ua ur ug ub simp_thms if_True)
    finally show ?thesis by (simp only: c_def)
  qed
qed

lemma weighted_le:
  "r < 256 \<Longrightarrow> g < 256 \<Longrightarrow> b < 256 \<Longrightarrow> (77 * r + 150 * g + 29 * b) div 2 ^ 8 \<le> (255::nat)"
  by simp

lemma luma_ref_le: "luma_ref c \<le> 255"
proof -
  define a where "a = (c div 2 ^ 24) mod 256"
  define r where "r = (c div 2 ^ 16) mod 256"
  define g where "g = (c div 2 ^ 8) mod 256"
  define b where "b = c mod 256"
  have bounds: "a < 256" "r < 256" "g < 256" "b < 256"
    by (simp_all add: a_def r_def g_def b_def)
  have eq: "luma_ref c =
      (if a \<noteq> 255 then (77 * (r * a div 255) + 150 * (g * a div 255) + 29 * (b * a div 255)) div 2 ^ 8
       else (77 * r + 150 * g + 29 * b) div 2 ^ 8)"
    by (simp add: luma_ref_def Let_def a_def r_def g_def b_def)
  have "(77 * (r * a div 255) + 150 * (g * a div 255) + 29 * (b * a div 255)) div 2 ^ 8 \<le> 255"
    by (intro weighted_le premul_bound bounds)
  moreover have "(77 * r + 150 * g + 29 * b) div 2 ^ 8 \<le> 255"
    by (intro weighted_le bounds)
  ultimately show ?thesis unfolding eq by (cases "a = 255") simp_all
qed

lemma scale_le: "l \<le> 255 \<Longrightarrow> (l * m mod 2 ^ 32) div 255 \<le> (m::nat)"
proof (cases "l * m < 2 ^ 32")
  case True
  assume "l \<le> 255"
  then have "l * m \<le> 255 * m" by (rule mult_le_mono1)
  then have "l * m div 255 \<le> 255 * m div 255" by (rule div_le_mono)
  with True show ?thesis by simp
next
  case False
  assume l: "l \<le> 255"
  then have "l * m \<le> 255 * m" by (rule mult_le_mono1)
  with False have "2 ^ 32 \<le> 255 * m" by linarith
  then have m: "16843009 < m" by simp
  have "l * m mod 2 ^ 32 < 2 ^ 32" by simp
  then have "l * m mod 2 ^ 32 div 255 \<le> 16843009" by simp
  with m show ?thesis by simp
qed

lemma unat_scale: "unat (scaleBrightness l m) = (unat l * unat m mod 2 ^ 32) div 255"
  by (simp add: scaleBrightness_def unat_div unat_word_ariths)

lemma luma_ref_off:
  assumes "c mod 2 ^ 24 = 0"
  shows "luma_ref c = 0"
proof -
  from assms have c: "c mod 16777216 = 0" by simp
  then have "16777216 dvd c" by (simp only: dvd_eq_mod_eq_0)
  then obtain q where q: "c = 16777216 * q" by (rule dvdE)
  have "c = 65536 * (256 * q)" by (simp add: q)
  then have "c div 65536 = 256 * q" by simp
  then have r: "c div 65536 mod 256 = 0" by simp
  have "c = 256 * (65536 * q)" by (simp add: q)
  then have "c div 256 = 256 * (256 * q)" by simp
  then have g: "c div 256 mod 256 = 0" by simp
  have "c = 256 * (65536 * q)" by (simp add: q)
  then have b: "c mod 256 = 0" by simp
  show ?thesis using r g b by (simp add: luma_ref_unfold)
qed

lemma unat_rgb: "unat ((c :: u32) AND 0x00ffffff) = unat c mod 2 ^ 24"
proof -
  have m: "(0x00ffffff :: u32) = mask 24" by (simp add: mask_eq_exp_minus_1)
  have "unat (c AND mask 24) = unat (take_bit 24 c)"
    by (simp only: take_bit_eq_mask)
  also have "\<dots> = take_bit 24 (unat c)"
    by (simp only: unsigned_take_bit_eq)
  also have "\<dots> = unat c mod 2 ^ 24"
    by (simp only: take_bit_eq_mod)
  finally show ?thesis by (simp only: m)
qed

lemma getBrightness_off: "\<not> isLit s \<Longrightarrow> getBrightness s = 0"
proof -
  assume "\<not> isLit s"
  then have "unat (color s AND 0x00ffffff) = 0" by (simp add: isLit_def)
  then have "unat (color s) mod 2 ^ 24 = 0" by (simp only: unat_rgb)
  then have "unat (getBrightness s) = 0" by (simp only: luma_eq luma_ref_off)
  then show ?thesis by (simp only: unat_eq_0)
qed

lemma getScaledBrightness_off: "\<not> isLit s \<Longrightarrow> getScaledBrightness s m = 0"
  by (simp add: getScaledBrightness_def scaleBrightness_def getBrightness_off)

section \<open>The controller: the loops against the reference\<close>

lemma writeFile_eq: "writeFile fs path v = (writable fs path, [Write path v (writable fs path)])"
  by (simp add: writeFile_def)

lemma updateCached_backends: "fst (updateCached t s bs h) = cacheState t s bs"
  by (induction bs arbitrary: h) (simp_all add: cacheState_def case_prod_beta)

lemma updateCached_no_match:
  "t \<notin> set (map type bs) \<Longrightarrow> snd (updateCached t s bs h) = h"
  by (induction bs arbitrary: h) (auto simp: case_prod_beta)

lemma updateCached_match:
  "distinct (map type bs) \<Longrightarrow> b \<in> set bs \<Longrightarrow> type b = t \<Longrightarrow>
   snd (updateCached t s bs h) = Some (handler b)"
proof (induction bs arbitrary: h)
  case Nil
  then show ?case by simp
next
  case (Cons x bs)
  show ?case
  proof (cases "type x = t")
    case True
    with Cons.prems have notin: "t \<notin> set (map type bs)" by auto
    with Cons.prems True have "b = x" by auto
    with True notin show ?thesis
      using updateCached_no_match [OF notin, of s "Some (handler x)"]
      by (simp add: case_prod_beta)
  next
    case False
    with Cons.prems have m: "b \<in> set bs" and d: "distinct (map type bs)" by auto
    have "snd (updateCached t s bs h) = Some (handler b)"
      by (rule Cons.IH [OF d m Cons.prems(3)])
    with False show ?thesis by (simp add: case_prod_beta)
  qed
qed

lemma updateCached_keeps: "\<exists>h'. snd (updateCached t s bs (Some h)) = Some h'"
  by (induction bs arbitrary: h) (simp_all add: case_prod_beta)

lemma updateCached_some:
  "t \<in> set (map type bs) \<Longrightarrow> \<exists>h'. snd (updateCached t s bs h) = Some h'"
proof (induction bs arbitrary: h)
  case Nil
  then show ?case by simp
next
  case (Cons x bs)
  show ?case
  proof (cases "type x = t")
    case True
    then show ?thesis using updateCached_keeps [of t s bs "handler x"]
      by (simp add: case_prod_beta)
  next
    case False
    with Cons.prems have "t \<in> set (map type bs)" by auto
    then have "\<exists>h'. snd (updateCached t s bs h) = Some h'" by (rule Cons.IH)
    with False show ?thesis by (simp add: case_prod_beta)
  qed
qed

lemma cacheState_no_match: "t \<notin> set (map type bs) \<Longrightarrow> cacheState t s bs = bs"
  by (induction bs) (auto simp: cacheState_def)

lemma lightUp_find:
  "lightUp fs h bs =
     (case firstLit h bs of None \<Rightarrow> (False, []) | Some w \<Rightarrow> (True, invoke fs h (state w)))"
  by (induction bs) (auto simp: firstLit_def)

lemma invocations_append: "invocations (es @ fs) = invocations es @ invocations fs"
  by (induction es rule: invocations.induct) auto

lemma writes_append: "writes (es @ fs) = writes es @ writes fs"
  by (induction es rule: writes.induct) auto

lemma invocations_invoke: "invocations (invoke fs h s) = [(h, s)]"
  by (cases h)
     (auto simp: handleNotification_def handleBacklight_def writeFile_eq split: option.splits)

lemma setLight_unsupported:
  assumes "t \<notin> set (map type bs)"
  shows "setLight fs bs t s = \<lparr>returned = LIGHT_NOT_SUPPORTED, backends = bs, effects = []\<rparr>"
proof -
  have "updateCached t s bs None = (bs, None)"
    using updateCached_backends [of t s bs None] updateCached_no_match [OF assms, of s None]
      cacheState_no_match [OF assms, of s]
    by (simp add: prod_eq_iff)
  then show ?thesis by (simp add: setLight_def)
qed

lemma setLight_supported:
  assumes "distinct (map type bs)" "b \<in> set bs" "type b = t"
  shows "setLight fs bs t s =
     \<lparr>returned = SUCCESS, backends = cacheState t s bs,
      effects = invoke fs (handler b)
        (case firstLit (handler b) (cacheState t s bs) of None \<Rightarrow> s | Some w \<Rightarrow> state w)\<rparr>"
proof -
  have "updateCached t s bs None = (cacheState t s bs, Some (handler b))"
    using updateCached_backends [of t s bs None] updateCached_match [OF assms, of s None]
    by (simp add: prod_eq_iff)
  then show ?thesis
    by (simp add: setLight_def lightUp_find split: option.splits)
qed

lemma setLight_backends: "backends (setLight fs bs t s) = cacheState t s bs"
  using updateCached_backends [of t s bs None]
  by (auto simp: setLight_def split: prod.splits option.splits bool.splits)

lemma setLight_returned:
  "t \<in> set (map type bs) \<Longrightarrow> returned (setLight fs bs t s) = SUCCESS"
  using updateCached_some [of t bs s None]
  by (auto simp: setLight_def split: prod.splits option.splits bool.splits)

lemma setLights_latest:
  "setLights cs bs = map (\<lambda>b. b\<lparr>state := latest (type b) cs (state b)\<rparr>) bs"
proof (induction cs arbitrary: bs)
  case Nil
  show ?case by (simp add: map_idI)
next
  case (Cons c cs)
  obtain fs t s where c: "c = (fs, t, s)" by (cases c)
  show ?case
    by (simp add: c Cons.IH setLight_backends cacheState_def)
qed

lemma pushTypes_map: "pushTypes bs types = types @ map type bs"
  by (induction bs arbitrary: types) auto

lemma types_setLights: "map type (setLights cs bs) = map type bs"
  by (simp add: setLights_latest comp_def)

lemma types_backends0: "map type backends0 = [ATTENTION, NOTIFICATIONS, BATTERY, BACKLIGHT]"
  by (simp add: backends0_def newLightBackend_def)

lemma firstLit_None_off:
  assumes "b \<in> set bs" "type b = t" "firstLit (handler b) (cacheState t s bs) = None"
  shows "\<not> isLit s"
proof -
  from assms(1,2) have "b\<lparr>state := s\<rparr> \<in> set (cacheState t s bs)"
    by (auto simp: cacheState_def image_iff intro!: bexI [of _ b])
  with assms(3) have "\<not> (handler (b\<lparr>state := s\<rparr>) = handler b \<and> isLit (state (b\<lparr>state := s\<rparr>)))"
    unfolding firstLit_def find_None_iff by blast
  then show ?thesis by simp
qed

lemma reachable_shape:
  "\<exists>s1 s2 s3 s4. setLights cs backends0 =
     [\<lparr>type = ATTENTION, state = s1, handler = handleNotificationPtr\<rparr>,
      \<lparr>type = NOTIFICATIONS, state = s2, handler = handleNotificationPtr\<rparr>,
      \<lparr>type = BATTERY, state = s3, handler = handleNotificationPtr\<rparr>,
      \<lparr>type = BACKLIGHT, state = s4, handler = handleBacklightPtr\<rparr>]"
  by (simp add: setLights_latest backends0_def newLightBackend_def)

lemma scenario:
  assumes "isLit sA"
  shows "invocations (effects (setLight fs2
           (backends (setLight fs1 (setLights cs backends0) ATTENTION sA)) NOTIFICATIONS sN))
         = [(handleNotificationPtr, sA)]"
proof -
  obtain s1 s2 s3 s4 where "setLights cs backends0 =
     [\<lparr>type = ATTENTION, state = s1, handler = handleNotificationPtr\<rparr>,
      \<lparr>type = NOTIFICATIONS, state = s2, handler = handleNotificationPtr\<rparr>,
      \<lparr>type = BATTERY, state = s3, handler = handleNotificationPtr\<rparr>,
      \<lparr>type = BACKLIGHT, state = s4, handler = handleBacklightPtr\<rparr>]"
    using reachable_shape by blast
  then show ?thesis using assms
    by (simp add: setLight_def invocations_invoke del: invoke.simps)
qed

section \<open>Claims on the brightness conversion\<close>

text \<open>
  C9. For every 32-bit ARGB colour the luma computed by \<open>getBrightness\<close> is at most 255, and
  for every \<open>maxBrightness\<close> the scaled brightness is at most \<open>maxBrightness\<close>. The bound on
  the scaled value holds also where the 32-bit product \<open>luma * maxBrightness\<close> wraps around.
\<close>

theorem brightness_bounds:
  "getBrightness s \<le> 255 \<and> getScaledBrightness s maxBrightness \<le> maxBrightness"
proof -
  have l: "unat (getBrightness s) \<le> 255" by (simp only: luma_eq luma_ref_le)
  then have "getBrightness s \<le> 255" by (simp add: word_le_nat_alt)
  moreover have "unat (getScaledBrightness s maxBrightness) \<le> unat maxBrightness"
    unfolding getScaledBrightness_def unat_scale by (rule scale_le [OF l])
  ultimately show ?thesis by (simp add: word_le_nat_alt)
qed

text \<open>
  C6, as stated, fails: for the colour \<open>0xFFFFFFFF\<close> (luma 255) and
  \<open>maxBrightness = 0x7FFFFFFF\<close> the 32-bit product wraps, and the code returns 8421503
  where the reference \<open>(luma * maxBrightness) / 255\<close> is 2147483647.
\<close>

theorem scale_reference_counterexample:
  "unat (getScaledBrightness (steady 0xFFFFFFFF) 0x7FFFFFFF) \<noteq>
     scale_ref (luma_ref (unat (color (steady 0xFFFFFFFF)))) (unat (0x7FFFFFFF :: u32)) \<and>
   unat (getScaledBrightness (steady 0xFFFFFFFF) 0x7FFFFFFF) = 8421503 \<and>
   scale_ref (luma_ref (unat (color (steady 0xFFFFFFFF)))) (unat (0x7FFFFFFF :: u32)) = 2147483647"
  by (simp add: getScaledBrightness_def scaleBrightness_def getBrightness_def steady_def
      scale_ref_def luma_ref_def Let_def)

lemma example_green: "getBrightness (s\<lparr>color := 0xFF00FF00\<rparr>) = 149"
  by (simp add: getBrightness_def Let_def)

lemma example_green_scaled: "getScaledBrightness (s\<lparr>color := 0xFF00FF00\<rparr>) 255 = 149"
  by (simp add: getScaledBrightness_def scaleBrightness_def example_green)

lemma example_half_green: "getBrightness (s\<lparr>color := 0x8000FF00\<rparr>) = 75"
  by (simp add: getBrightness_def Let_def)

text \<open>
  C6, amended. For every 32-bit ARGB colour the luma of the code equals the reference
  definition (alpha, red, green and blue extracted, the channels premultiplied by alpha
  with truncation when alpha is not \<open>0xFF\<close>, the weighted sum shifted right by 8). The
  scaled brightness is \<open>((luma * maxBrightness) mod 2 ^ 32) / 255\<close>; it equals the reference
  \<open>(luma * maxBrightness) / 255\<close> whenever the product is below \<open>2 ^ 32\<close>, in particular for
  every \<open>maxBrightness\<close> up to 16843009. Colour \<open>0xFF00FF00\<close> has luma 149 and, with
  \<open>maxBrightness\<close> 255, scaled brightness 149; colour \<open>0x8000FF00\<close> has luma 75.
\<close>

theorem brightness_conversion_reference:
  "unat (getBrightness s) = luma_ref (unat (color s)) \<and>
   unat (getScaledBrightness s m) = (luma_ref (unat (color s)) * unat m mod 2 ^ 32) div 255 \<and>
   (luma_ref (unat (color s)) * unat m < 2 ^ 32 \<longrightarrow>
      unat (getScaledBrightness s m) = scale_ref (luma_ref (unat (color s))) (unat m)) \<and>
   (unat m \<le> 16843009 \<longrightarrow>
      unat (getScaledBrightness s m) = scale_ref (luma_ref (unat (color s))) (unat m)) \<and>
   getBrightness (s\<lparr>color := 0xFF00FF00\<rparr>) = 149 \<and>
   getScaledBrightness (s\<lparr>color := 0xFF00FF00\<rparr>) 255 = 149 \<and>
   getBrightness (s\<lparr>color := 0x8000FF00\<rparr>) = 75"
proof -
  let ?l = "luma_ref (unat (color s))"
  have sc: "unat (getScaledBrightness s m) = (?l * unat m mod 2 ^ 32) div 255"
    by (simp only: getScaledBrightness_def unat_scale luma_eq)
  have small: "?l * unat m < 2 ^ 32" if "unat m \<le> 16843009"
  proof -
    have "?l * unat m \<le> 255 * 16843009" using luma_ref_le that by (rule mult_le_mono)
    then show ?thesis by simp
  qed
  have exact: "unat (getScaledBrightness s m) = scale_ref ?l (unat m)" if "?l * unat m < 2 ^ 32"
    using that by (simp only: sc scale_ref_def mod_less)
  show ?thesis
    using luma_eq sc exact small example_green example_green_scaled example_half_green
    by blast
qed

theorem brightness_conversion_reference_witness:
  "luma_ref (unat (color (steady 0xFF00FF00))) * unat (255 :: u32) < 2 ^ 32 \<and>
   unat (255 :: u32) \<le> 16843009 \<and>
   unat (getScaledBrightness (steady 0xFF00FF00) 255) =
     scale_ref (luma_ref (unat (color (steady 0xFF00FF00)))) (unat (255 :: u32)) \<and>
   scale_ref (luma_ref (unat (color (steady 0xFF00FF00)))) (unat (255 :: u32)) = 149"
  using brightness_conversion_reference [of "steady 0xFF00FF00" 255]
  by (simp add: steady_def luma_ref_def scale_ref_def Let_def)

section \<open>Claims on the render handlers\<close>

text \<open>
  C5. For every state with \<open>flashMode = TIMED\<close> rendered by \<open>handleNotification\<close> while
  \<open>max_brightness\<close> of the notification LED is readable, the writes issued are exactly
  \<open>breath = 0\<close>, \<open>delay_off = flashOffMs\<close>, \<open>delay_on = flashOnMs\<close>, \<open>breath = 1\<close>, in this
  order, and nothing is written to the brightness attribute. Each of the four is issued
  whether or not its file opens; the handler's effects are these four calls and nothing else.
\<close>

theorem handleNotification_timed:
  "flashMode s = TIMED \<Longrightarrow> readable fs (WHITE_LED @ MAX_BRIGHTNESS) = Some maxBrightness \<Longrightarrow>
   writes (handleNotification fs s) =
     [(WHITE_LED @ BREATH, 0),
      (WHITE_LED @ DELAY_OFF, flashOffMs s),
      (WHITE_LED @ DELAY_ON, flashOnMs s),
      (WHITE_LED @ BREATH, 1)] \<and>
   handleNotification fs s =
     [Write (WHITE_LED @ BREATH) 0 (writable fs (WHITE_LED @ BREATH)),
      Write (WHITE_LED @ DELAY_OFF) (flashOffMs s) (writable fs (WHITE_LED @ DELAY_OFF)),
      Write (WHITE_LED @ DELAY_ON) (flashOnMs s) (writable fs (WHITE_LED @ DELAY_ON)),
      Write (WHITE_LED @ BREATH) 1 (writable fs (WHITE_LED @ BREATH))] \<and>
   written (WHITE_LED @ BRIGHTNESS) (handleNotification fs s) = []"
  by (simp add: handleNotification_def getMaxBrightness_def readFile_def writeFile_eq
      written_def BREATH_def BRIGHTNESS_def DELAY_OFF_def DELAY_ON_def)

theorem handleNotification_timed_witness:
  "flashMode (blinking 0xFFFF0000 300 700) = TIMED \<and>
   readable (leds 255) (WHITE_LED @ MAX_BRIGHTNESS) = Some 255 \<and>
   writes (handleNotification (leds 255) (blinking 0xFFFF0000 300 700)) =
     [(WHITE_LED @ BREATH, 0),
      (WHITE_LED @ DELAY_OFF, 700),
      (WHITE_LED @ DELAY_ON, 300),
      (WHITE_LED @ BREATH, 1)]"
  using handleNotification_timed [of "blinking 0xFFFF0000 300 700" "leds 255" 255]
  by (simp add: blinking_def leds_def)

lemma writes_invoke_unreadable:
  "readable fs (ledOf h @ MAX_BRIGHTNESS) = None \<Longrightarrow> writes (invoke fs h s) = []"
  by (cases h) (simp_all add: handleNotification_def handleBacklight_def getMaxBrightness_def
      readFile_def)

text \<open>
  C7. When \<open>max_brightness\<close> of the LED a handler renders to cannot be read, the handler
  issues no write, and a \<open>setLight\<close> call on a supported type still returns \<open>SUCCESS\<close>, with
  no write among its effects.
\<close>

theorem max_brightness_unreadable:
  "(readable fs (LCD_LED @ MAX_BRIGHTNESS) = None \<longrightarrow> handleBacklight fs s = []) \<and>
   (readable fs (WHITE_LED @ MAX_BRIGHTNESS) = None \<longrightarrow> handleNotification fs s = []) \<and>
   (distinct (map type bs) \<and> b \<in> set bs \<and> type b = t \<and>
    readable fs (ledOf (handler b) @ MAX_BRIGHTNESS) = None \<longrightarrow>
      returned (setLight fs bs t s) = SUCCESS \<and> writes (effects (setLight fs bs t s)) = [])"
proof -
  have "handleBacklight fs s = []" if "readable fs (LCD_LED @ MAX_BRIGHTNESS) = None"
    using that by (simp add: handleBacklight_def getMaxBrightness_def readFile_def)
  moreover have "handleNotification fs s = []" if "readable fs (WHITE_LED @ MAX_BRIGHTNESS) = None"
    using that by (simp add: handleNotification_def getMaxBrightness_def readFile_def)
  moreover have "returned (setLight fs bs t s) = SUCCESS \<and> writes (effects (setLight fs bs t s)) = []"
    if "distinct (map type bs)" "b \<in> set bs" "type b = t"
      "readable fs (ledOf (handler b) @ MAX_BRIGHTNESS) = None"
    using writes_invoke_unreadable [of fs "handler b"] that(4)
    by (simp add: setLight_supported [OF that(1,2,3)])
  ultimately show ?thesis by blast
qed

theorem max_brightness_unreadable_witness:
  "handleBacklight noLeds (steady 0xFFFFFFFF) = [] \<and>
   handleNotification noLeds (steady 0xFFFFFFFF) = [] \<and>
   returned (setLight noLeds backends0 BACKLIGHT (steady 0xFFFFFFFF)) = SUCCESS \<and>
   writes (effects (setLight noLeds backends0 BACKLIGHT (steady 0xFFFFFFFF))) = []"
proof -
  have d: "distinct (map type backends0)" by (simp add: types_backends0)
  have m: "newLightBackend BACKLIGHT handleBacklightPtr \<in> set backends0"
    by (simp add: backends0_def)
  have t: "type (newLightBackend BACKLIGHT handleBacklightPtr) = BACKLIGHT"
    by (simp add: newLightBackend_def)
  show ?thesis
    using max_brightness_unreadable [of noLeds "steady 0xFFFFFFFF" backends0
        "newLightBackend BACKLIGHT handleBacklightPtr" BACKLIGHT] d m t
    by (simp add: noLeds_def)
qed

section \<open>Claims on the controller\<close>

text \<open>
  C8. After any history of \<open>setLight\<close> calls \<open>getSupportedTypes\<close> returns
  \<open>[ATTENTION, NOTIFICATIONS, BATTERY, BACKLIGHT]\<close>; it leaves the backends as they are
  and has no effect on the device files.
\<close>

theorem getSupportedTypes_fixed:
  "returned (getSupportedTypes (setLights cs backends0)) =
     [ATTENTION, NOTIFICATIONS, BATTERY, BACKLIGHT] \<and>
   backends (getSupportedTypes bs) = bs \<and>
   effects (getSupportedTypes bs) = []"
  by (simp add: getSupportedTypes_def pushTypes_map types_setLights types_backends0)

text \<open>
  C3. A \<open>setLight\<close> call for a type that no backend has returns \<open>LIGHT_NOT_SUPPORTED\<close>,
  leaves every backend as it is and has no effect; a call for a type that a backend has
  returns \<open>SUCCESS\<close>. On the backends of the service, after any history, the supported
  types are ATTENTION, NOTIFICATIONS, BATTERY and BACKLIGHT.
\<close>

theorem setLight_status:
  "(t \<notin> set (map type bs) \<longrightarrow>
      setLight fs bs t s = \<lparr>returned = LIGHT_NOT_SUPPORTED, backends = bs, effects = []\<rparr>) \<and>
   (t \<in> set (map type bs) \<longrightarrow> returned (setLight fs bs t s) = SUCCESS) \<and>
   (t \<notin> {ATTENTION, NOTIFICATIONS, BATTERY, BACKLIGHT} \<longrightarrow>
      setLight fs (setLights cs backends0) t s =
        \<lparr>returned = LIGHT_NOT_SUPPORTED, backends = setLights cs backends0, effects = []\<rparr>) \<and>
   (t \<in> {ATTENTION, NOTIFICATIONS, BATTERY, BACKLIGHT} \<longrightarrow>
      returned (setLight fs (setLights cs backends0) t s) = SUCCESS)"
proof -
  have ty: "set (map type (setLights cs backends0)) = {ATTENTION, NOTIFICATIONS, BATTERY, BACKLIGHT}"
    by (simp only: types_setLights types_backends0) simp
  show ?thesis
    using setLight_unsupported [of t bs fs s] setLight_returned [of t bs fs s]
      setLight_unsupported [of t "setLights cs backends0" fs s]
      setLight_returned [of t "setLights cs backends0" fs s]
    unfolding ty by blast
qed

theorem setLight_status_witness:
  "KEYBOARD \<notin> set (map type backends0) \<and>
   setLight (leds 255) backends0 KEYBOARD (steady 0xFFFFFFFF) =
     \<lparr>returned = LIGHT_NOT_SUPPORTED, backends = backends0, effects = []\<rparr> \<and>
   BATTERY \<in> set (map type backends0) \<and>
   returned (setLight (leds 255) backends0 BATTERY (steady 0xFFFFFFFF)) = SUCCESS \<and>
   setLight (leds 255)
     (setLights [(leds 255, BATTERY, steady 0xFFFFFFFF)] backends0) WIFI (steady 0xFF00FF00) =
     \<lparr>returned = LIGHT_NOT_SUPPORTED,
      backends = setLights [(leds 255, BATTERY, steady 0xFFFFFFFF)] backends0,
      effects = []\<rparr> \<and>
   returned (setLight (leds 255)
     (setLights [(leds 255, BATTERY, steady 0xFFFFFFFF)] backends0) BACKLIGHT
       (steady 0xFF00FF00)) = SUCCESS"
  using setLight_status [of KEYBOARD backends0 "leds 255" "steady 0xFFFFFFFF" "[]"]
    setLight_status [of BATTERY backends0 "leds 255" "steady 0xFFFFFFFF" "[]"]
    setLight_status [of WIFI backends0 "leds 255" "steady 0xFF00FF00"
      "[(leds 255, BATTERY, steady 0xFFFFFFFF)]"]
    setLight_status [of BACKLIGHT backends0 "leds 255" "steady 0xFF00FF00"
      "[(leds 255, BATTERY, steady 0xFFFFFFFF)]"]
  by (simp add: types_backends0)

section \<open>Claims on the arbitration\<close>

lemma backends0_distinct: "distinct (map type backends0)"
  by (simp add: types_backends0)

text \<open>
  C1. For a \<open>setLight\<close> call on a type that a backend has (the types of the backends are
  distinct, as they are in every state of the service): the backend's cached state is set,
  and when \<open>w\<close> is the first backend, in construction order, that shares the handler and
  is lit, the handler is invoked exactly once, with the cached state of \<open>w\<close>. In
  particular, after ATTENTION is set lit and then NOTIFICATIONS is set lit, from any
  state of the service, the notification handler is invoked with ATTENTION's state.
\<close>

theorem setLight_priority:
  "(distinct (map type bs) \<and> b \<in> set bs \<and> type b = t \<and>
    firstLit (handler b) (cacheState t s bs) = Some w \<longrightarrow>
      backends (setLight fs bs t s) = cacheState t s bs \<and>
      effects (setLight fs bs t s) = invoke fs (handler b) (state w) \<and>
      invocations (effects (setLight fs bs t s)) = [(handler b, state w)]) \<and>
   (isLit sA \<and> isLit sN \<longrightarrow>
      invocations (effects (setLight fs2
        (backends (setLight fs1 (setLights cs backends0) ATTENTION sA)) NOTIFICATIONS sN)) =
      [(handleNotificationPtr, sA)]) \<and>
   distinct (map type (setLights cs backends0))"
proof -
  have r: "distinct (map type (setLights cs backends0))"
    by (simp only: types_setLights backends0_distinct)
  have "backends (setLight fs bs t s) = cacheState t s bs \<and>
      effects (setLight fs bs t s) = invoke fs (handler b) (state w) \<and>
      invocations (effects (setLight fs bs t s)) = [(handler b, state w)]"
    if "distinct (map type bs)" "b \<in> set bs" "type b = t"
      "firstLit (handler b) (cacheState t s bs) = Some w"
    using that(4) by (simp add: setLight_supported [OF that(1,2,3)] invocations_invoke
        del: invoke.simps)
  then show ?thesis using scenario [of sA fs2 fs1 cs sN] r by blast
qed

theorem setLight_priority_witness:
  "firstLit handleNotificationPtr (cacheState BATTERY (steady 0xFF00FF00)
      (setLights [(leds 255, NOTIFICATIONS, steady 0xFFFF0000)] backends0)) =
     Some \<lparr>type = NOTIFICATIONS, state = steady 0xFFFF0000, handler = handleNotificationPtr\<rparr> \<and>
   invocations (effects (setLight (leds 255)
      (setLights [(leds 255, NOTIFICATIONS, steady 0xFFFF0000)] backends0)
      BATTERY (steady 0xFF00FF00))) = [(handleNotificationPtr, steady 0xFFFF0000)] \<and>
   isLit (steady 0xFFFF0000) \<and> isLit (steady 0xFF00FF00) \<and>
   invocations (effects (setLight (leds 255)
      (backends (setLight (leds 255) (setLights [] backends0) ATTENTION (steady 0xFFFF0000)))
      NOTIFICATIONS (steady 0xFF00FF00))) = [(handleNotificationPtr, steady 0xFFFF0000)]"
proof -
  let ?bs = "setLights [(leds 255, NOTIFICATIONS, steady 0xFFFF0000)] backends0"
  let ?b = "\<lparr>type = BATTERY, state = steady 0xFF000000, handler = handleNotificationPtr\<rparr>"
  let ?w = "\<lparr>type = NOTIFICATIONS, state = steady 0xFFFF0000, handler = handleNotificationPtr\<rparr>"
  have bs: "?bs = [\<lparr>type = ATTENTION, state = steady 0xFF000000, handler = handleNotificationPtr\<rparr>,
      ?w, ?b, \<lparr>type = BACKLIGHT, state = steady 0xFF000000, handler = handleBacklightPtr\<rparr>]"
    by (simp add: setLights_latest backends0_def newLightBackend_def steady_def)
  have d: "distinct (map type ?bs)" by (simp only: types_setLights backends0_distinct)
  have m: "?b \<in> set ?bs" by (simp only: bs) simp
  have t: "type ?b = BATTERY" by simp
  have f: "firstLit (handler ?b) (cacheState BATTERY (steady 0xFF00FF00) ?bs) = Some ?w"
    by (simp only: bs) (simp add: firstLit_def cacheState_def isLit_def steady_def)
  have l: "isLit (steady 0xFFFF0000)" "isLit (steady 0xFF00FF00)"
    by (simp_all add: isLit_def steady_def)
  show ?thesis
    using setLight_priority [of ?bs ?b BATTERY "steady 0xFF00FF00" ?w "leds 255"
        "steady 0xFFFF0000" "steady 0xFF00FF00" "leds 255" "leds 255" "[]"]
      d m t f l
    by (simp add: invocations_invoke del: invoke.simps)
qed

text \<open>
  The two definitions of \<open>setLight\<close> on the same two calls: ATTENTION set to red, then
  NOTIFICATIONS set to green, with \<open>max_brightness\<close> 255.
\<close>

lemma implementations_differ_concrete:
  "backends (setLight (leds 255) backends0 ATTENTION (steady 0xFFFF0000)) =
     backends (setLight_inline (leds 255) backends0 ATTENTION (steady 0xFFFF0000)) \<and>
   effects (setLight (leds 255)
      (backends (setLight (leds 255) backends0 ATTENTION (steady 0xFFFF0000)))
      NOTIFICATIONS (steady 0xFF00FF00)) =
     [Invoke handleNotificationPtr (steady 0xFFFF0000),
      Write (WHITE_LED @ BREATH) 0 True, Write (WHITE_LED @ BRIGHTNESS) 76 True] \<and>
   effects (setLight_inline (leds 255)
      (backends (setLight_inline (leds 255) backends0 ATTENTION (steady 0xFFFF0000)))
      NOTIFICATIONS (steady 0xFF00FF00)) =
     [Invoke handleNotificationPtr (steady 0xFF00FF00),
      Write (WHITE_LED @ BREATH) 0 True, Write (WHITE_LED @ BRIGHTNESS) 149 True]"
  by (simp add: setLight_def backends0_def newLightBackend_def steady_def isLit_def leds_def
      handleNotification_def getMaxBrightness_def readFile_def writeFile_eq
      getScaledBrightness_def scaleBrightness_def getBrightness_def Let_def)

text \<open>
  C2. There is a sequence of two \<open>setLight\<close> calls, on two types that share
  \<open>handleNotification\<close>, both lit afterwards, on which the \<open>setLight\<close> of Light.cpp and
  the \<open>setLight\<close> written inline in Light.h cache the same states but invoke the handler
  with different states and issue different writes.
\<close>

theorem setLight_implementations_differ:
  "\<exists>fs t1 s1 t2 s2.
     newLightBackend t1 handleNotificationPtr \<in> set backends0 \<and>
     newLightBackend t2 handleNotificationPtr \<in> set backends0 \<and>
     isLit s1 \<and> isLit s2 \<and>
     backends (setLight fs backends0 t1 s1) = backends (setLight_inline fs backends0 t1 s1) \<and>
     map state (take 2 (backends (setLight fs (backends (setLight fs backends0 t1 s1)) t2 s2))) =
       [s1, s2] \<and>
     map state (take 2 (backends (setLight_inline fs
        (backends (setLight_inline fs backends0 t1 s1)) t2 s2))) = [s1, s2] \<and>
     invocations (effects (setLight fs (backends (setLight fs backends0 t1 s1)) t2 s2)) =
       [(handleNotificationPtr, s1)] \<and>
     invocations (effects (setLight_inline fs
        (backends (setLight_inline fs backends0 t1 s1)) t2 s2)) =
       [(handleNotificationPtr, s2)] \<and>
     s1 \<noteq> s2 \<and>
     writes (effects (setLight fs (backends (setLight fs backends0 t1 s1)) t2 s2)) \<noteq>
       writes (effects (setLight_inline fs
         (backends (setLight_inline fs backends0 t1 s1)) t2 s2))"
proof -
  let ?fs = "leds 255"
  let ?s1 = "steady 0xFFFF0000"
  let ?s2 = "steady 0xFF00FF00"
  have "newLightBackend ATTENTION handleNotificationPtr \<in> set backends0 \<and>
     newLightBackend NOTIFICATIONS handleNotificationPtr \<in> set backends0 \<and>
     isLit ?s1 \<and> isLit ?s2 \<and>
     backends (setLight ?fs backends0 ATTENTION ?s1) =
       backends (setLight_inline ?fs backends0 ATTENTION ?s1) \<and>
     map state (take 2 (backends (setLight ?fs (backends (setLight ?fs backends0 ATTENTION ?s1))
        NOTIFICATIONS ?s2))) = [?s1, ?s2] \<and>
     map state (take 2 (backends (setLight_inline ?fs
        (backends (setLight_inline ?fs backends0 ATTENTION ?s1)) NOTIFICATIONS ?s2))) =
       [?s1, ?s2] \<and>
     invocations (effects (setLight ?fs (backends (setLight ?fs backends0 ATTENTION ?s1))
        NOTIFICATIONS ?s2)) = [(handleNotificationPtr, ?s1)] \<and>
     invocations (effects (setLight_inline ?fs
        (backends (setLight_inline ?fs backends0 ATTENTION ?s1)) NOTIFICATIONS ?s2)) =
       [(handleNotificationPtr, ?s2)] \<and>
     ?s1 \<noteq> ?s2 \<and>
     writes (effects (setLight ?fs (backends (setLight ?fs backends0 ATTENTION ?s1))
        NOTIFICATIONS ?s2)) \<noteq>
       writes (effects (setLight_inline ?fs
         (backends (setLight_inline ?fs backends0 ATTENTION ?s1)) NOTIFICATIONS ?s2))"
    using implementations_differ_concrete
    by (simp add: backends0_def steady_def isLit_def setLight_backends cacheState_def
        newLightBackend_def)
  then show ?thesis
    by (intro exI [of _ ?fs] exI [of _ ATTENTION] exI [of _ ?s1] exI [of _ NOTIFICATIONS]
        exI [of _ ?s2])
qed

text \<open>
  C4. The code breaks the claim, and its own comment ``Turn off hardware if no type is lit
  up'' (Light.cpp, above the fallback call \<open>handler(state)\<close>): NOTIFICATIONS is set to an
  off colour with \<open>flashMode = TIMED\<close> while no backend of the notification LED is lit. The
  handler is invoked with that state and writes \<open>breath = 0\<close>, the two delays and
  \<open>breath = 1\<close>: brightness is not written and blinking is enabled again, so the LED is
  not turned off. The sibling \<open>handleBacklight\<close> does turn its LED off for the same state:
  it writes brightness 0 whatever the \<open>flashMode\<close>.
\<close>

theorem off_state_timed_rearms_blink:
  "firstLit handleNotificationPtr
     (cacheState NOTIFICATIONS (blinking 0xFF000000 500 500) backends0) = None \<and>
   effects (setLight (leds 255) backends0 NOTIFICATIONS (blinking 0xFF000000 500 500)) =
     [Invoke handleNotificationPtr (blinking 0xFF000000 500 500),
      Write (WHITE_LED @ BREATH) 0 True,
      Write (WHITE_LED @ DELAY_OFF) 500 True,
      Write (WHITE_LED @ DELAY_ON) 500 True,
      Write (WHITE_LED @ BREATH) 1 True] \<and>
   \<not> turnsOff WHITE_LED
     (effects (setLight (leds 255) backends0 NOTIFICATIONS (blinking 0xFF000000 500 500))) \<and>
   firstLit handleBacklightPtr
     (cacheState BACKLIGHT (blinking 0xFF000000 500 500) backends0) = None \<and>
   effects (setLight (leds 255) backends0 BACKLIGHT (blinking 0xFF000000 500 500)) =
     [Invoke handleBacklightPtr (blinking 0xFF000000 500 500),
      Write (LCD_LED @ BRIGHTNESS) 0 True] \<and>
   turnsOff LCD_LED
     (effects (setLight (leds 255) backends0 BACKLIGHT (blinking 0xFF000000 500 500)))"
proof -
  have e: "effects (setLight (leds 255) backends0 NOTIFICATIONS (blinking 0xFF000000 500 500)) =
     [Invoke handleNotificationPtr (blinking 0xFF000000 500 500),
      Write (WHITE_LED @ BREATH) 0 True,
      Write (WHITE_LED @ DELAY_OFF) 500 True,
      Write (WHITE_LED @ DELAY_ON) 500 True,
      Write (WHITE_LED @ BREATH) 1 True]"
    by (simp add: setLight_def backends0_def newLightBackend_def blinking_def isLit_def leds_def
        handleNotification_def getMaxBrightness_def readFile_def writeFile_eq)
  have f: "firstLit handleNotificationPtr
     (cacheState NOTIFICATIONS (blinking 0xFF000000 500 500) backends0) = None"
    by (simp add: firstLit_def cacheState_def backends0_def newLightBackend_def blinking_def
        isLit_def)
  have n: "\<not> turnsOff WHITE_LED
     (effects (setLight (leds 255) backends0 NOTIFICATIONS (blinking 0xFF000000 500 500)))"
    unfolding e
    by (simp add: turnsOff_def written_def BREATH_def BRIGHTNESS_def DELAY_OFF_def DELAY_ON_def)
  have e': "effects (setLight (leds 255) backends0 BACKLIGHT (blinking 0xFF000000 500 500)) =
     [Invoke handleBacklightPtr (blinking 0xFF000000 500 500),
      Write (LCD_LED @ BRIGHTNESS) 0 True]"
    by (simp add: setLight_def backends0_def newLightBackend_def blinking_def isLit_def leds_def
        handleBacklight_def getMaxBrightness_def readFile_def writeFile_eq
        getScaledBrightness_def scaleBrightness_def getBrightness_def Let_def)
  have f': "firstLit handleBacklightPtr
     (cacheState BACKLIGHT (blinking 0xFF000000 500 500) backends0) = None"
    by (simp add: firstLit_def cacheState_def backends0_def newLightBackend_def blinking_def
        isLit_def)
  have b: "turnsOff LCD_LED
     (effects (setLight (leds 255) backends0 BACKLIGHT (blinking 0xFF000000 500 500)))"
    unfolding e' by (simp add: turnsOff_def written_def)
  from f e n f' e' b show ?thesis by (intro conjI)
qed

lemma writes_invoke_off:
  assumes "\<not> isLit s" "readable fs (ledOf h @ MAX_BRIGHTNESS) = Some m"
    "h = handleBacklightPtr \<or> flashMode s \<noteq> TIMED"
  shows "writes (invoke fs h s) =
     (case h of handleNotificationPtr \<Rightarrow> [(WHITE_LED @ BREATH, 0), (WHITE_LED @ BRIGHTNESS, 0)]
      | handleBacklightPtr \<Rightarrow> [(LCD_LED @ BRIGHTNESS, 0)])"
  using assms
  by (cases h)
     (simp_all add: handleNotification_def handleBacklight_def getMaxBrightness_def readFile_def
       writeFile_eq getScaledBrightness_off)

lemma turnsOff_invoke_off:
  assumes "\<not> isLit s" "readable fs (ledOf h @ MAX_BRIGHTNESS) = Some m"
    "h = handleBacklightPtr \<or> flashMode s \<noteq> TIMED"
  shows "turnsOff (ledOf h) (invoke fs h s)"
  using writes_invoke_off [of s fs h m] assms
  by (cases h) (simp_all add: turnsOff_def written_def BREATH_def BRIGHTNESS_def)

text \<open>
  On every other off state the fallback call does what the comment says. After a
  \<open>setLight\<close> call on a supported type that leaves no backend sharing the handler lit,
  the state just set is off and the handler is invoked exactly once, with that state;
  with \<open>max_brightness\<close> readable, \<open>handleBacklight\<close> always, and \<open>handleNotification\<close>
  for a \<open>flashMode\<close> other than TIMED, write brightness 0.
\<close>

lemma off_state_rendered:
  "distinct (map type bs) \<Longrightarrow> b \<in> set bs \<Longrightarrow> type b = t \<Longrightarrow>
   firstLit (handler b) (cacheState t s bs) = None \<Longrightarrow>
   \<not> isLit s \<and>
   effects (setLight fs bs t s) = invoke fs (handler b) s \<and>
   invocations (effects (setLight fs bs t s)) = [(handler b, s)] \<and>
   (readable fs (ledOf (handler b) @ MAX_BRIGHTNESS) = Some m \<and>
    (handler b = handleBacklightPtr \<or> flashMode s \<noteq> TIMED) \<longrightarrow>
      turnsOff (ledOf (handler b)) (effects (setLight fs bs t s)) \<and>
      writes (effects (setLight fs bs t s)) =
        (case handler b of
           handleNotificationPtr \<Rightarrow> [(WHITE_LED @ BREATH, 0), (WHITE_LED @ BRIGHTNESS, 0)]
         | handleBacklightPtr \<Rightarrow> [(LCD_LED @ BRIGHTNESS, 0)])) \<and>
   (readable fs (ledOf (handler b) @ MAX_BRIGHTNESS) = None \<longrightarrow>
      writes (effects (setLight fs bs t s)) = [])"
proof -
  assume d: "distinct (map type bs)" and m: "b \<in> set bs" and t: "type b = t"
    and f: "firstLit (handler b) (cacheState t s bs) = None"
  have off: "\<not> isLit s" by (rule firstLit_None_off [OF m t f])
  have e: "effects (setLight fs bs t s) = invoke fs (handler b) s"
    by (simp add: setLight_supported [OF d m t] f del: invoke.simps)
  have i: "invocations (effects (setLight fs bs t s)) = [(handler b, s)]"
    by (simp only: e invocations_invoke)
  have w: "turnsOff (ledOf (handler b)) (effects (setLight fs bs t s)) \<and>
      writes (effects (setLight fs bs t s)) =
        (case handler b of
           handleNotificationPtr \<Rightarrow> [(WHITE_LED @ BREATH, 0), (WHITE_LED @ BRIGHTNESS, 0)]
         | handleBacklightPtr \<Rightarrow> [(LCD_LED @ BRIGHTNESS, 0)])"
    if "readable fs (ledOf (handler b) @ MAX_BRIGHTNESS) = Some m"
      "handler b = handleBacklightPtr \<or> flashMode s \<noteq> TIMED"
    unfolding e
    using turnsOff_invoke_off [of s fs "handler b" m] writes_invoke_off [of s fs "handler b" m]
      off that
    by simp
  have u: "writes (effects (setLight fs bs t s)) = []"
    if "readable fs (ledOf (handler b) @ MAX_BRIGHTNESS) = None"
    unfolding e using that writes_invoke_unreadable [of fs "handler b" s] by simp
  from off e i w u show ?thesis by blast
qed

text \<open>
  C10. A \<open>setLight\<close> call leaves every backend of another type as it is and sets the state
  of the backend of the given type, and nothing else of it. After any history of calls,
  the cached state of each backend of the service is the state of the most recent call for
  its type, or the initial opaque black when there was none.
\<close>

theorem cached_state_frame:
  "length (backends (setLight fs bs t s)) = length bs \<and>
   (\<forall>i < length bs. type (bs ! i) \<noteq> t \<longrightarrow> backends (setLight fs bs t s) ! i = bs ! i) \<and>
   (\<forall>i < length bs. type (bs ! i) = t \<longrightarrow>
      backends (setLight fs bs t s) ! i = (bs ! i)\<lparr>state := s\<rparr>) \<and>
   (\<forall>b \<in> set (setLights cs backends0).
      state b = latest (type b) cs (steady 0xff000000))"
proof -
  have "\<forall>b \<in> set (setLights cs backends0). state b = latest (type b) cs (steady 0xff000000)"
    by (simp add: setLights_latest backends0_def newLightBackend_def steady_def)
  then show ?thesis
    by (simp add: setLight_backends cacheState_def)
qed

theorem cached_state_frame_witness:
  "backends (setLight (leds 255) backends0 BATTERY (steady 0xFF00FF00)) ! 1 = backends0 ! 1 \<and>
   backends (setLight (leds 255) backends0 BATTERY (steady 0xFF00FF00)) ! 2 =
     (backends0 ! 2)\<lparr>state := steady 0xFF00FF00\<rparr> \<and>
   map state (setLights
      [(leds 255, BATTERY, steady 0xFF00FF00), (noLeds, ATTENTION, steady 0xFFFF0000),
       (leds 255, BATTERY, blinking 0xFF0000FF 100 200)] backends0) =
     [steady 0xFFFF0000, steady 0xFF000000, blinking 0xFF0000FF 100 200, steady 0xFF000000]"
proof -
  let ?cs = "[(leds 255, BATTERY, steady 0xFF00FF00), (noLeds, ATTENTION, steady 0xFFFF0000),
       (leds 255, BATTERY, blinking 0xFF0000FF 100 200)]"
  have l: "length backends0 = 4" by (simp add: backends0_def)
  have ty: "map type (setLights ?cs backends0) = [ATTENTION, NOTIFICATIONS, BATTERY, BACKLIGHT]"
    by (simp only: types_setLights types_backends0)
  then obtain b1 b2 b3 b4 where bs: "setLights ?cs backends0 = [b1, b2, b3, b4]"
    and tys: "type b1 = ATTENTION" "type b2 = NOTIFICATIONS" "type b3 = BATTERY"
      "type b4 = BACKLIGHT"
    by (auto simp: map_eq_Cons_conv)
  note T = cached_state_frame [of "leds 255" backends0 BATTERY "steady 0xFF00FF00" ?cs]
  have t1: "type (backends0 ! 1) \<noteq> BATTERY" and t2: "type (backends0 ! 2) = BATTERY"
    by (simp_all add: backends0_def newLightBackend_def)
  from T l t1 have a: "backends (setLight (leds 255) backends0 BATTERY (steady 0xFF00FF00)) ! 1
      = backends0 ! 1" by simp
  from T l t2 have b: "backends (setLight (leds 255) backends0 BATTERY (steady 0xFF00FF00)) ! 2
      = (backends0 ! 2)\<lparr>state := steady 0xFF00FF00\<rparr>" by simp
  from T have "\<forall>b \<in> set (setLights ?cs backends0). state b = latest (type b) ?cs (steady 0xff000000)"
    by blast
  then have c: "map state (setLights ?cs backends0) =
     [steady 0xFFFF0000, steady 0xFF000000, blinking 0xFF0000FF 100 200, steady 0xFF000000]"
    unfolding bs using tys by simp
  from a b c show ?thesis by (intro conjI)
qed

end
